theory Spec2Isabelle
  imports Complex_Main "HOL-Library.Product_Lexorder" "HOL-Library.List_Lexorder"
    "HOL-Library.Char_ord"
begin

section \<open>Numeric cells\<close>

text \<open>
  The data frames of \<^verbatim>\<open>analyze_trend.py\<close> hold floating-point columns. A cell is either
  null (NaN, \<open>None\<close>) or a number, and a number is finite or one of the two infinities,
  which is what division by zero produces. Finite numbers are rationals and their
  arithmetic is exact: rounding, overflow and the sign of zero are not part of the model,
  so a statement about the last bits of a float64 result cannot be made in it.
\<close>

datatype xrat = NInf | Fin rat | PInf

type_synonym cell = "xrat option"

text \<open>The position of a number in the order of the floats, and in the reversed order.\<close>

fun xord :: "xrat \<Rightarrow> int \<times> rat" where
  "xord NInf = (- 1, 0)"
| "xord (Fin q) = (0, q)"
| "xord PInf = (1, 0)"

fun xord_desc :: "xrat \<Rightarrow> int \<times> rat" where
  "xord_desc NInf = (1, 0)"
| "xord_desc (Fin q) = (0, - q)"
| "xord_desc PInf = (- 1, 0)"

text \<open>Addition of two numbers: opposite infinities give NaN.\<close>

fun xadd :: "xrat \<Rightarrow> xrat \<Rightarrow> cell" where
  "xadd (Fin a) (Fin b) = Some (Fin (a + b))"
| "xadd PInf NInf = None"
| "xadd NInf PInf = None"
| "xadd PInf (Fin b) = Some PInf"
| "xadd PInf PInf = Some PInf"
| "xadd (Fin a) PInf = Some PInf"
| "xadd NInf (Fin b) = Some NInf"
| "xadd NInf NInf = Some NInf"
| "xadd (Fin a) NInf = Some NInf"

fun fadd :: "cell \<Rightarrow> cell \<Rightarrow> cell" where
  "fadd (Some a) (Some b) = xadd a b"
| "fadd _ _ = None"

text \<open>
  Division of two numbers: a finite number over zero is an infinity of its sign, zero over
  zero and infinity over infinity are NaN, a finite number over an infinity is zero.
\<close>

fun xdiv :: "xrat \<Rightarrow> xrat \<Rightarrow> cell" where
  "xdiv (Fin a) (Fin b) =
     (if b \<noteq> 0 then Some (Fin (a / b))
      else if a = 0 then None
      else if 0 < a then Some PInf else Some NInf)"
| "xdiv (Fin a) PInf = Some (Fin 0)"
| "xdiv (Fin a) NInf = Some (Fin 0)"
| "xdiv PInf (Fin b) = (if 0 \<le> b then Some PInf else Some NInf)"
| "xdiv NInf (Fin b) = (if 0 \<le> b then Some NInf else Some PInf)"
| "xdiv PInf PInf = None"
| "xdiv PInf NInf = None"
| "xdiv NInf PInf = None"
| "xdiv NInf NInf = None"

fun fdiv :: "cell \<Rightarrow> cell \<Rightarrow> cell" where
  "fdiv (Some a) (Some b) = xdiv a b"
| "fdiv _ _ = None"

text \<open>
  \<^verbatim>\<open>sum\<close> of pandas skips nulls (\<^verbatim>\<open>skipna=True\<close>): a null counts as zero, and the sum of no
  value is zero.
\<close>

fun fillz :: "cell \<Rightarrow> cell" where
  "fillz None = Some (Fin 0)"
| "fillz (Some x) = Some x"

definition nansum :: "cell list \<Rightarrow> cell" where
  "nansum vs = foldr (\<lambda>v acc. fadd (fillz v) acc) vs (Some (Fin 0))"

text \<open>The comparison \<^verbatim>\<open>df >= 1\<close> on one cell; a comparison with NaN is false.\<close>

fun ge1 :: "cell \<Rightarrow> bool" where
  "ge1 None = False"
| "ge1 (Some NInf) = False"
| "ge1 (Some (Fin q)) = (1 \<le> q)"
| "ge1 (Some PInf) = True"

section \<open>Tables\<close>

text \<open>
  One row of the data set read from \<^verbatim>\<open>full.csv\<close>: the two columns of the partition key, the
  score, and the other numeric columns by name (the genre indicators and whatever numeric
  metadata the file has). The type of the season column is a parameter: a string as read,
  a category after \<^verbatim>\<open>analyze_trend\<close> has converted it.
\<close>

datatype season = winter | spring | summer | fall

record 's item =
  Year :: int
  Season :: 's
  Score :: cell
  vals :: "(string \<times> cell) list"

record 's dataset =
  headers :: "string list"
  items :: "'s item list"

text \<open>
  A frame indexed by keys of type \<open>'k\<close>: the column labels, and for each row its index key
  and its cells by column label.
\<close>

record 'k frame =
  columns :: "string list"
  rows :: "('k \<times> (string \<times> cell) list) list"

definition cellv :: "(string \<times> cell) list \<Rightarrow> string \<Rightarrow> cell" where
  "cellv r c = (case map_of r c of None \<Rightarrow> None | Some v \<Rightarrow> v)"

text \<open>The value of a row of the data set in a summable column.\<close>

definition colv :: "'s item \<Rightarrow> string \<Rightarrow> cell" where
  "colv r c = (if c = ''Score'' then Score r else cellv (vals r) c)"

section \<open>The selection of the top n of each season\<close>

text \<open>
  \<^verbatim>\<open>pd.Categorical(df["Season"], ["winter", "spring", "summer", "fall"])\<close>: a value outside the
  categories becomes null; the categories are ordered by their codes.
\<close>

definition categorical :: "string \<Rightarrow> season option" where
  "categorical s =
     (if s = ''winter'' then Some winter
      else if s = ''spring'' then Some spring
      else if s = ''summer'' then Some summer
      else if s = ''fall'' then Some fall
      else None)"

fun season_code :: "season \<Rightarrow> nat" where
  "season_code winter = 0"
| "season_code spring = 1"
| "season_code summer = 2"
| "season_code fall = 3"

text \<open>
  \<^verbatim>\<open>groupby(["Year", "Season"]).apply(...)\<close>: the function is applied to the groups of the
  keys that occur, in sorted order; a row with a null key is in no group.
\<close>

definition key_of :: "season option item \<Rightarrow> (int \<times> season) option" where
  "key_of r = (case Season r of None \<Rightarrow> None | Some s \<Rightarrow> Some (Year r, s))"

definition key_code :: "int \<times> season \<Rightarrow> int \<times> nat" where
  "key_code k = (fst k, season_code (snd k))"

definition group_keys :: "season option item list \<Rightarrow> (int \<times> season) list" where
  "group_keys rs = sort_key key_code (remdups (List.map_filter key_of rs))"

definition group_rows :: "int \<times> season \<Rightarrow> season option item list \<Rightarrow> season option item list" where
  "group_rows k rs = filter (\<lambda>r. key_of r = Some k) rs"

text \<open>
  \<^verbatim>\<open>season.nlargest(n, "Score", keep="all")\<close> on the rows of one group. Nothing is selected
  for \<open>n \<le> 0\<close>. When the group has at most \<open>n\<close> rows all of them are returned, by descending
  score with the null scores last. Otherwise the rows with a score are compared with the
  \<open>k\<close>-th largest score, \<open>k\<close> the smaller of \<open>n\<close> and their number: those that reach it are
  returned by descending score, all of them since ties are kept, and the rows without a
  score follow when fewer than \<open>n\<close> rows have one.
\<close>

definition sort_desc :: "'s item list \<Rightarrow> 's item list" where
  "sort_desc rs = sort_key (\<lambda>r. xord_desc (the (Score r))) rs"

definition nlargest :: "int \<Rightarrow> 's item list \<Rightarrow> 's item list" where
  "nlargest n rs =
     (if n \<le> 0 then []
      else
        let dropped = filter (\<lambda>r. Score r \<noteq> None) rs;
            nan_rows = filter (\<lambda>r. Score r = None) rs
        in if length rs \<le> nat n then sort_desc dropped @ nan_rows
           else
             let k = min (nat n) (length dropped);
                 inds = (if dropped = [] then []
                         else
                           let kth_val = the (Score (sort_desc dropped ! (k - 1)))
                           in sort_desc
                                (filter (\<lambda>r. xord kth_val \<le> xord (the (Score r))) dropped))
             in if length inds < nat n then inds @ nan_rows else inds)"

text \<open>
  Lines 16 to 18 of \<^verbatim>\<open>only_genres_for_top_n\<close>: the selection applied to each group, the
  results concatenated in the order of the groups.
\<close>

definition select_top_n :: "int \<Rightarrow> season option dataset \<Rightarrow> season option dataset" where
  "select_top_n n df =
     df\<lparr>items := concat (map (\<lambda>k. nlargest n (group_rows k (items df))) (group_keys (items df)))\<rparr>"

section \<open>The aggregation of the genres\<close>

text \<open>
  \<^verbatim>\<open>groupby(["Year", "Season"]).sum()\<close> on the selected rows, whose season column is still
  categorical. With the default \<^verbatim>\<open>observed=False\<close> the index of the result is the product of
  the years that occur, sorted, and all four categories in their order, whether or not
  the pair occurs among the rows. A row holds the sum of every summable column, the score
  among them, over the rows of its key; over no rows the sum is zero.
\<close>

definition result_keys :: "season option item list \<Rightarrow> (int \<times> season) list" where
  "result_keys rs = List.product (sort (remdups (map Year rs))) [winter, spring, summer, fall]"

definition partition_sums :: "season option dataset \<Rightarrow> int \<times> season \<Rightarrow> (string \<times> cell) list" where
  "partition_sums df k =
     map (\<lambda>c. (c, nansum (map (\<lambda>r. colv r c) (group_rows k (items df))))) (''Score'' # headers df)"

definition groupby_sum :: "season option dataset \<Rightarrow> (int \<times> season) frame" where
  "groupby_sum df =
     \<lparr>columns = ''Score'' # headers df,
      rows = map (\<lambda>k. (k, partition_sums df k)) (result_keys (items df))\<rparr>"

text \<open>\<^verbatim>\<open>dropna()\<close> with its defaults: a row with a null in any column is removed.\<close>

definition dropna :: "'k frame \<Rightarrow> 'k frame" where
  "dropna f = f\<lparr>rows := filter (\<lambda>kr. list_all (\<lambda>cv. snd cv \<noteq> None) (snd kr)) (rows f)\<rparr>"

text \<open>
  \<^verbatim>\<open>grouped.columns.difference(basic_headers)\<close>: the labels that are not basic headers,
  without repetition and sorted; and the selection of these columns.
\<close>

definition difference :: "string list \<Rightarrow> string list \<Rightarrow> string list" where
  "difference cs bh = sort (remdups (filter (\<lambda>c. c \<notin> set bh) cs))"

definition select_columns :: "string list \<Rightarrow> 'k frame \<Rightarrow> 'k frame" where
  "select_columns cs f =
     \<lparr>columns = cs, rows = map (\<lambda>kr. (fst kr, map (\<lambda>c. (c, cellv (snd kr) c)) cs)) (rows f)\<rparr>"

text \<open>
  The list \<^verbatim>\<open>basic_headers\<close> is imported from \<^verbatim>\<open>build_dataset\<close>; here it is the parameter
  \<open>basic_headers\<close>.
\<close>

definition aggregate :: "string list \<Rightarrow> season option dataset \<Rightarrow> (int \<times> season) frame" where
  "aggregate basic_headers df =
     (let grouped = dropna (groupby_sum df)
      in select_columns (difference (columns grouped) basic_headers) grouped)"

definition only_genres_for_top_n ::
    "string list \<Rightarrow> season option dataset \<Rightarrow> int \<Rightarrow> (int \<times> season) frame" where
  "only_genres_for_top_n basic_headers df n = aggregate basic_headers (select_top_n n df)"

section \<open>The preparation in \<^verbatim>\<open>analyze_trend\<close>\<close>

text \<open>\<^verbatim>\<open>df.dropna(subset=["Score"])\<close> and the conversion of the season column.\<close>

definition dropna_score :: "'s dataset \<Rightarrow> 's dataset" where
  "dropna_score df = df\<lparr>items := filter (\<lambda>r. Score r \<noteq> None) (items df)\<rparr>"

definition set_categorical :: "string dataset \<Rightarrow> season option dataset" where
  "set_categorical df =
     \<lparr>headers = headers df,
      items = map (\<lambda>r. \<lparr>Year = Year r, Season = categorical (Season r), Score = Score r,
                         vals = vals r\<rparr>) (items df)\<rparr>"

definition prepare :: "string dataset \<Rightarrow> season option dataset" where
  "prepare df = set_categorical (dropna_score df)"

section \<open>The consistency filter and the normalisation\<close>

text \<open>
  \<^verbatim>\<open>df.div(df.sum(axis=1), axis=0)\<close>: every cell of a row is divided by the sum of the row.
\<close>

definition row_sum :: "(string \<times> cell) list \<Rightarrow> cell" where
  "row_sum r = nansum (map snd r)"

definition normalize_row :: "(string \<times> cell) list \<Rightarrow> (string \<times> cell) list" where
  "normalize_row r = map (\<lambda>cv. (fst cv, fdiv (snd cv) (row_sum r))) r"

definition normalize :: "'k frame \<Rightarrow> 'k frame" where
  "normalize df = df\<lparr>rows := map (\<lambda>kr. (fst kr, normalize_row (snd kr))) (rows df)\<rparr>"

text \<open>
  \<^verbatim>\<open>drop_if\<close>: the condition gives one truth value per column, the labels at the true
  positions are the columns to drop, and \<^verbatim>\<open>df.drop(..., axis=1)\<close> removes the columns with
  these labels.
\<close>

definition drop_columns :: "string list \<Rightarrow> 'k frame \<Rightarrow> 'k frame" where
  "drop_columns cs df =
     \<lparr>columns = filter (\<lambda>c. c \<notin> set cs) (columns df),
      rows = map (\<lambda>kr. (fst kr, filter (\<lambda>cv. fst cv \<notin> set cs) (snd kr))) (rows df)\<rparr>"

definition columns_to_drop :: "('k frame \<Rightarrow> bool list) \<Rightarrow> 'k frame \<Rightarrow> string list" where
  "columns_to_drop condition df = map fst (filter snd (zip (columns df) (condition df)))"

definition drop_if :: "('k frame \<Rightarrow> bool list) \<Rightarrow> 'k frame \<Rightarrow> 'k frame" where
  "drop_if condition df = drop_columns (columns_to_drop condition df) df"

text \<open>\<^verbatim>\<open>df.tail(count)\<close>: the last \<open>count\<close> rows.\<close>

definition tail :: "nat \<Rightarrow> 'k frame \<Rightarrow> 'k frame" where
  "tail count df = df\<lparr>rows := drop (length (rows df) - count) (rows df)\<rparr>"

definition column_values :: "'k frame \<Rightarrow> string \<Rightarrow> cell list" where
  "column_values df c = map (\<lambda>kr. cellv (snd kr) c) (rows df)"

text \<open>
  \<^verbatim>\<open>(df >= 1).sum() < count * 0.4\<close>: one truth value per column position. The comparison
  and the sum run over the cells at a position, whatever the label there. The product is
  exact here; for the counts that occur, at most 20, the floating-point product decides
  the comparison with an integer the same way.
\<close>

definition cell_at :: "(string \<times> cell) list \<Rightarrow> nat \<Rightarrow> cell" where
  "cell_at r j = (case drop j r of [] \<Rightarrow> None | cv # _ \<Rightarrow> snd cv)"

definition count_ge1 :: "'k frame \<Rightarrow> nat \<Rightarrow> nat" where
  "count_ge1 df j = length (filter ge1 (map (\<lambda>kr. cell_at (snd kr) j) (rows df)))"

definition not_minimum_requirement :: "nat \<Rightarrow> 'k frame \<Rightarrow> bool list" where
  "not_minimum_requirement count df =
     map (\<lambda>j. (of_nat (count_ge1 df j) :: rat) < of_nat count * (4 / 10))
       [0..<length (columns df)]"

text \<open>
  The table that \<^verbatim>\<open>plot_trend\<close> hands to the plot: \<open>recent\<close> is the frame restricted to its
  last \<open>count\<close> rows, \<open>filtered\<close> the result of the consistency filter.
\<close>

definition count_of :: "'k frame \<Rightarrow> nat" where
  "count_of df = min 20 (length (rows df))"

definition recent :: "'k frame \<Rightarrow> 'k frame" where
  "recent df = tail (count_of df) df"

definition filtered :: "'k frame \<Rightarrow> 'k frame" where
  "filtered df = drop_if (not_minimum_requirement (count_of df)) (recent df)"

definition plot_trend :: "'k frame \<Rightarrow> 'k frame" where
  "plot_trend df = normalize (filtered df)"

section \<open>Notions used in the statements\<close>

text \<open>
  Classes of cells used in the statements: a count is a finite number that is not negative,
  or a null; a finite cell is a finite number or a null.
\<close>

definition nonneg_cell :: "cell \<Rightarrow> bool" where
  "nonneg_cell v = (case v of None \<Rightarrow> True | Some NInf \<Rightarrow> False | Some (Fin q) \<Rightarrow> 0 \<le> q | Some PInf \<Rightarrow> False)"

definition finite_cell :: "cell \<Rightarrow> bool" where
  "finite_cell v = (case v of None \<Rightarrow> True | Some NInf \<Rightarrow> False | Some (Fin q) \<Rightarrow> True | Some PInf \<Rightarrow> False)"

text \<open>The finite value of a cell, a null counting as zero.\<close>

definition qval :: "cell \<Rightarrow> rat" where
  "qval v = (case v of Some (Fin q) \<Rightarrow> q | _ \<Rightarrow> 0)"

text \<open>
  A frame is well formed when its column labels are distinct and every row has exactly
  one cell per column, in the order of the columns. The number of appearances of a column
  is the number of rows in which it is at least 1.
\<close>

definition wf_frame :: "'k frame \<Rightarrow> bool" where
  "wf_frame df =
     (distinct (columns df) \<and> list_all (\<lambda>kr. map fst (snd kr) = columns df) (rows df))"

definition appearances :: "'k frame \<Rightarrow> string \<Rightarrow> nat" where
  "appearances df c = length (filter ge1 (column_values df c))"

text \<open>
  The example of the normaliser: a row of counts 2, 2, 0 and a row of zeros; and a row
  whose sum is zero though its cells are not.
\<close>

definition ex_signed :: "(int \<times> season) frame" where
  "ex_signed =
     \<lparr>columns = [''A'', ''B'', ''C''],
      rows = [((2020, winter),
               [(''A'', Some (Fin 1)), (''B'', Some (Fin (- 1))), (''C'', Some (Fin 0))])]\<rparr>"


definition ex_counts :: "(int \<times> season) frame" where
  "ex_counts =
     \<lparr>columns = [''A'', ''B'', ''C''],
      rows = [((2020, winter), [(''A'', Some (Fin 2)), (''B'', Some (Fin 2)), (''C'', Some (Fin 0))]),
              ((2020, spring), [(''A'', Some (Fin 0)), (''B'', Some (Fin 0)), (''C'', Some (Fin 0))])]\<rparr>"

text \<open>The example of the column filter: two columns, the first of which is dropped.\<close>

definition ex_two :: "(int \<times> season) frame" where
  "ex_two =
     \<lparr>columns = [''A'', ''B''],
      rows = [((2020, winter), [(''A'', Some (Fin 1)), (''B'', Some (Fin 0))]),
              ((2020, spring), [(''A'', Some (Fin 0)), (''B'', Some (Fin 1))])]\<rparr>"

text \<open>
  The example of the consistency filter: ten partitions, a column with four appearances
  and a column with three.
\<close>

definition ex_ten :: "(int \<times> season) frame" where
  "ex_ten =
     \<lparr>columns = [''A'', ''B''],
      rows = [((2018, winter), [(''A'', Some (Fin 1)), (''B'', Some (Fin 1))]),
              ((2018, spring), [(''A'', Some (Fin 2)), (''B'', Some (Fin 0))]),
              ((2018, summer), [(''A'', Some (Fin 0)), (''B'', Some (Fin 0))]),
              ((2018, fall), [(''A'', Some (Fin 0)), (''B'', Some (Fin 3))]),
              ((2019, winter), [(''A'', Some (Fin 1)), (''B'', Some (Fin 0))]),
              ((2019, spring), [(''A'', Some (Fin 0)), (''B'', Some (Fin 0))]),
              ((2019, summer), [(''A'', Some (Fin 0)), (''B'', Some (Fin 1))]),
              ((2019, fall), [(''A'', Some (Fin 0)), (''B'', Some (Fin 0))]),
              ((2020, winter), [(''A'', Some (Fin 5)), (''B'', Some (Fin 0))]),
              ((2020, spring), [(''A'', Some (Fin 0)), (''B'', Some (Fin 0))])]\<rparr>"

text \<open>
  Twelve partitions and a column that appears in four of the last ten, in none of the
  first two.
\<close>

definition ex_twelve :: "(int \<times> season) frame" where
  "ex_twelve =
     \<lparr>columns = [''A''],
      rows = [((2018, winter), [(''A'', Some (Fin 0))]),
              ((2018, spring), [(''A'', Some (Fin 0))]),
              ((2018, summer), [(''A'', Some (Fin 1))]),
              ((2018, fall), [(''A'', Some (Fin 1))]),
              ((2019, winter), [(''A'', Some (Fin 2))]),
              ((2019, spring), [(''A'', Some (Fin 1))]),
              ((2019, summer), [(''A'', Some (Fin 0))]),
              ((2019, fall), [(''A'', Some (Fin 0))]),
              ((2020, winter), [(''A'', Some (Fin 0))]),
              ((2020, spring), [(''A'', Some (Fin 0))]),
              ((2020, summer), [(''A'', Some (Fin 0))]),
              ((2020, fall), [(''A'', Some (Fin 0))])]\<rparr>"

text \<open>
  The scores of the rows that have one, largest first: its element \<open>n - 1\<close> is the \<open>n\<close>-th
  largest score.
\<close>

definition scores_desc :: "'s item list \<Rightarrow> xrat list" where
  "scores_desc rs = map (\<lambda>r. the (Score r)) (sort_desc (filter (\<lambda>r. Score r \<noteq> None) rs))"

text \<open>The chronological order of the partition keys: by year, then by season code.\<close>

definition chrono :: "int \<times> season \<Rightarrow> int \<times> season \<Rightarrow> bool" where
  "chrono k k' = (fst k < fst k' \<or> (fst k = fst k' \<and> season_code (snd k) < season_code (snd k')))"


definition complete_sums :: "season option dataset \<Rightarrow> int \<times> season \<Rightarrow> bool" where
  "complete_sums df k = list_all (\<lambda>cv. snd cv \<noteq> None) (partition_sums df k)"

text \<open>Examples of data sets, with two genre columns.\<close>

definition ex_item :: "int \<Rightarrow> 's \<Rightarrow> cell \<Rightarrow> cell \<Rightarrow> cell \<Rightarrow> 's item" where
  "ex_item y s sc a b = \<lparr>Year = y, Season = s, Score = sc, vals = [(''A'', a), (''B'', b)]\<rparr>"

text \<open>
  A winter of seven rows whose fifth and sixth scores are equal, and a spring of two rows.
\<close>

definition ex_ties :: "season option dataset" where
  "ex_ties =
     \<lparr>headers = [''A'', ''B''],
      items = [ex_item 2020 (Some winter) (Some (Fin 5)) (Some (Fin 1)) (Some (Fin 0)),
               ex_item 2020 (Some winter) (Some (Fin 9)) (Some (Fin 0)) (Some (Fin 1)),
               ex_item 2020 (Some spring) (Some (Fin 3)) (Some (Fin 1)) (Some (Fin 1)),
               ex_item 2020 (Some winter) (Some (Fin 7)) (Some (Fin 1)) (Some (Fin 1)),
               ex_item 2020 (Some winter) (Some (Fin 8)) (Some (Fin 0)) (Some (Fin 0)),
               ex_item 2020 (Some winter) (Some (Fin 5)) (Some (Fin 0)) (Some (Fin 1)),
               ex_item 2020 (Some winter) (Some (Fin 4)) (Some (Fin 1)) (Some (Fin 0)),
               ex_item 2020 (Some spring) (Some (Fin 4)) (Some (Fin 0)) (Some (Fin 0)),
               ex_item 2020 (Some winter) (Some (Fin 6)) (Some (Fin 1)) (Some (Fin 0))]\<rparr>"

text \<open>A data set as read, with two rows that have no score.\<close>

definition ex_raw :: "string dataset" where
  "ex_raw =
     \<lparr>headers = [''A'', ''B''],
      items = [ex_item 2020 ''fall'' (Some (Fin 8)) (Some (Fin 1)) (Some (Fin 0)),
               ex_item 2021 ''winter'' None (Some (Fin 1)) (Some (Fin 1)),
               ex_item 2020 ''winter'' (Some (Fin 7)) (Some (Fin 0)) (Some (Fin 1)),
               ex_item 2020 ''fall'' None (Some (Fin 0)) (Some (Fin 1))]\<rparr>"

text \<open>A data set as read, its partitions out of chronological order.\<close>

definition ex_order :: "string dataset" where
  "ex_order =
     \<lparr>headers = [''A'', ''B''],
      items = [ex_item 2020 ''fall'' (Some (Fin 8)) (Some (Fin 1)) (Some (Fin 0)),
               ex_item 2021 ''winter'' (Some (Fin 6)) (Some (Fin 1)) (Some (Fin 1)),
               ex_item 2020 ''winter'' (Some (Fin 7)) (Some (Fin 0)) (Some (Fin 1))]\<rparr>"



section \<open>Arithmetic of cells and the normaliser\<close>

lemma qval_simps: "qval None = 0" "qval (Some (Fin q)) = q"
  by (simp_all add: qval_def)

lemma cellv_map: "cellv (map (\<lambda>cv. (fst cv, f (snd cv))) r) c = (case map_of r c of None \<Rightarrow> None | Some v \<Rightarrow> f v)"
  by (induction r) (auto simp: cellv_def)

lemma cellv_filter: "c \<notin> D \<Longrightarrow> cellv (filter (\<lambda>cv. fst cv \<notin> D) r) c = cellv r c"
  by (induction r) (auto simp: cellv_def)

lemma finite_cell_cases: "finite_cell v \<Longrightarrow> v = None \<or> (\<exists>q. v = Some (Fin q))"
  by (auto simp: finite_cell_def split: option.splits xrat.splits)

lemma nansum_finite: "list_all finite_cell vs \<Longrightarrow> nansum vs = Some (Fin (sum_list (map qval vs)))"
proof (induction vs)
  case Nil then show ?case by (simp add: nansum_def)
next
  case (Cons v vs)
  then have "nansum vs = Some (Fin (sum_list (map qval vs)))" by simp
  moreover have "nansum (v # vs) = fadd (fillz v) (nansum vs)" by (simp add: nansum_def)
  moreover have "v = None \<or> (\<exists>q. v = Some (Fin q))" using Cons.prems by (simp add: finite_cell_cases)
  ultimately show ?case by (auto simp: qval_simps)
qed

lemma nonneg_finite: "nonneg_cell v \<Longrightarrow> finite_cell v"
  by (auto simp: nonneg_cell_def finite_cell_def split: option.splits xrat.splits)

lemma nonneg_qval: "nonneg_cell v \<Longrightarrow> 0 \<le> qval v"
  by (auto simp: nonneg_cell_def qval_def split: option.splits xrat.splits)

lemma zero_sum_cells:
  assumes nn: "list_all nonneg_cell vs" and z: "nansum vs = Some (Fin 0)" and v: "v \<in> set vs"
  shows "fdiv v (Some (Fin 0)) = None"
proof -
  have fin: "list_all finite_cell vs" using nn by (auto simp: list_all_iff nonneg_finite)
  have "sum_list (map qval vs) = 0" using nansum_finite[OF fin] z by simp
  moreover have "\<forall>x\<in>set (map qval vs). 0 \<le> x" using nn by (auto simp: list_all_iff nonneg_qval)
  ultimately have "\<forall>x\<in>set (map qval vs). x = 0" using sum_list_nonneg_eq_0_iff[of "map qval vs"] by blast
  then have "qval v = 0" using v by simp
  moreover have "v = None \<or> (\<exists>q. v = Some (Fin q))" using fin v by (auto simp: list_all_iff finite_cell_cases)
  ultimately show ?thesis by (auto simp: qval_simps)
qed

lemma normalize_row_labels: "map fst (normalize_row r) = map fst r"
  by (simp add: normalize_row_def comp_def)

lemma normalize_row_cellv: "cellv (normalize_row r) c = fdiv (cellv r c) (row_sum r)"
proof -
  have "cellv (map (\<lambda>cv. (fst cv, fdiv (snd cv) s)) r) c = fdiv (cellv r c) s" for s
    by (induction r) (auto simp: cellv_def)
  then show ?thesis by (simp add: normalize_row_def)
qed

lemma normalize_row_zero:
  assumes "list_all nonneg_cell (map snd r)" "row_sum r = Some (Fin 0)" "cv \<in> set (normalize_row r)"
  shows "snd cv = None"
proof -
  from assms(3) obtain cv' where cv': "cv' \<in> set r" "cv = (fst cv', fdiv (snd cv') (row_sum r))"
    by (auto simp: normalize_row_def)
  have "snd cv' \<in> set (map snd r)" using cv'(1) by simp
  then have "fdiv (snd cv') (Some (Fin 0)) = None"
    using zero_sum_cells[OF assms(1)] assms(2) by (simp add: row_sum_def)
  then show ?thesis using cv'(2) assms(2) by simp
qed

lemma normalize_rows_nth: "i < length (rows df) \<Longrightarrow> rows (normalize df) ! i = (fst (rows df ! i), normalize_row (snd (rows df ! i)))"
  by (simp add: normalize_def)

text \<open>
  Claim C3, as amended. The normaliser keeps the columns, the rows and their keys, and
  replaces every cell by the cell divided by the sum of its row; it has no failing branch.
  When the cells of a row are counts (not negative, not infinite, or null) and the sum of
  the row is zero, every cell of the normalised row is NaN.
\<close>

theorem normalize_postcondition:
  "columns (normalize df) = columns df \<and>
   length (rows (normalize df)) = length (rows df) \<and>
   (\<forall>i<length (rows df).
      fst (rows (normalize df) ! i) = fst (rows df ! i) \<and>
      map fst (snd (rows (normalize df) ! i)) = map fst (snd (rows df ! i)) \<and>
      map snd (snd (rows (normalize df) ! i)) =
        map (\<lambda>v. fdiv v (row_sum (snd (rows df ! i)))) (map snd (snd (rows df ! i))) \<and>
      (\<forall>c. cellv (snd (rows (normalize df) ! i)) c =
             fdiv (cellv (snd (rows df ! i)) c) (row_sum (snd (rows df ! i)))) \<and>
      (list_all nonneg_cell (map snd (snd (rows df ! i))) \<and> row_sum (snd (rows df ! i)) = Some (Fin 0)
         \<longrightarrow> (\<forall>cv\<in>set (snd (rows (normalize df) ! i)). snd cv = None)))"
proof -
  have a: "columns (normalize df) = columns df" by (simp add: normalize_def)
  have b: "length (rows (normalize df)) = length (rows df)" by (simp add: normalize_def)
  have c: "fst (rows (normalize df) ! i) = fst (rows df ! i) \<and>
      map fst (snd (rows (normalize df) ! i)) = map fst (snd (rows df ! i)) \<and>
      map snd (snd (rows (normalize df) ! i)) =
        map (\<lambda>v. fdiv v (row_sum (snd (rows df ! i)))) (map snd (snd (rows df ! i))) \<and>
      (\<forall>c. cellv (snd (rows (normalize df) ! i)) c =
             fdiv (cellv (snd (rows df ! i)) c) (row_sum (snd (rows df ! i)))) \<and>
      (list_all nonneg_cell (map snd (snd (rows df ! i))) \<and> row_sum (snd (rows df ! i)) = Some (Fin 0)
         \<longrightarrow> (\<forall>cv\<in>set (snd (rows (normalize df) ! i)). snd cv = None))"
    if i: "i < length (rows df)" for i
  proof -
    have r: "rows (normalize df) ! i = (fst (rows df ! i), normalize_row (snd (rows df ! i)))"
      using i by (rule normalize_rows_nth)
    have "map snd (normalize_row r) = map (\<lambda>v. fdiv v (row_sum r)) (map snd r)" for r
      by (simp add: normalize_row_def comp_def)
    then show ?thesis
      unfolding r by (auto simp: normalize_row_labels normalize_row_cellv dest: normalize_row_zero)
  qed
  show ?thesis using a b c by blast
qed

lemma ex_counts_rows: "rows ex_counts = [((2020, winter), [(''A'', Some (Fin 2)), (''B'', Some (Fin 2)), (''C'', Some (Fin 0))]),
              ((2020, spring), [(''A'', Some (Fin 0)), (''B'', Some (Fin 0)), (''C'', Some (Fin 0))])]"
  by (simp add: ex_counts_def)

theorem normalize_postcondition_witness:
  "(0::nat) < length (rows ex_counts) \<and> 1 < length (rows ex_counts) \<and>
   map snd (snd (rows (normalize ex_counts) ! 0)) = [Some (Fin (1 / 2)), Some (Fin (1 / 2)), Some (Fin 0)] \<and>
   list_all nonneg_cell (map snd (snd (rows ex_counts ! 1))) \<and>
   row_sum (snd (rows ex_counts ! 1)) = Some (Fin 0) \<and>
   list_all (\<lambda>cv. snd cv = None) (snd (rows (normalize ex_counts) ! 1))"
proof -
  have l: "(0::nat) < length (rows ex_counts)" "1 < length (rows ex_counts)"
    by (simp_all add: ex_counts_rows)
  have h: "list_all nonneg_cell (map snd (snd (rows ex_counts ! 1)))"
    "row_sum (snd (rows ex_counts ! 1)) = Some (Fin 0)"
    by (simp_all add: ex_counts_rows nonneg_cell_def row_sum_def nansum_def)
  have s: "row_sum (snd (rows ex_counts ! 0)) = Some (Fin 4)"
    by (simp add: ex_counts_rows row_sum_def nansum_def)
  from normalize_postcondition[of ex_counts] l
  have "map snd (snd (rows (normalize ex_counts) ! 0)) =
        map (\<lambda>v. fdiv v (row_sum (snd (rows ex_counts ! 0)))) (map snd (snd (rows ex_counts ! 0)))"
    and "list_all nonneg_cell (map snd (snd (rows ex_counts ! 1))) \<and> row_sum (snd (rows ex_counts ! 1)) = Some (Fin 0)
         \<longrightarrow> (\<forall>cv\<in>set (snd (rows (normalize ex_counts) ! 1)). snd cv = None)"
    by blast+
  note n = this
  have m: "map snd (snd (rows (normalize ex_counts) ! 0))
           = [Some (Fin (1 / 2)), Some (Fin (1 / 2)), Some (Fin 0)]"
    using n(1) unfolding s by (simp add: ex_counts_rows)
  have "\<forall>cv\<in>set (snd (rows (normalize ex_counts) ! 1)). snd cv = None"
    using n(2) h by blast
  then have z: "list_all (\<lambda>cv. snd cv = None) (snd (rows (normalize ex_counts) ! 1))"
    by (simp only: list_all_iff)
  show ?thesis by (intro conjI l h m z)
qed

text \<open>
  Claim C3, as stated, fails on a row whose sum is zero and whose cells are not: the row
  1, -1, 0 is normalised to plus infinity, minus infinity and NaN.
\<close>

theorem normalize_zero_sum_counterexample:
  "row_sum (snd (hd (rows ex_signed))) = Some (Fin 0) \<and>
   normalize ex_signed =
     \<lparr>columns = [''A'', ''B'', ''C''],
      rows = [((2020, winter), [(''A'', Some PInf), (''B'', Some NInf), (''C'', None)])]\<rparr>"
  by (simp add: ex_signed_def normalize_def normalize_row_def row_sum_def nansum_def)

section \<open>The column filter\<close>

lemma drop_columns_rows:
  "rows (drop_columns cs df) = map (\<lambda>kr. (fst kr, filter (\<lambda>cv. fst cv \<notin> set cs) (snd kr))) (rows df)"
  by (simp add: drop_columns_def)

lemma drop_columns_columns:
  "columns (drop_columns cs df) = filter (\<lambda>c. c \<notin> set cs) (columns df)"
  by (simp add: drop_columns_def)

lemma drop_columns_values:
  "c \<notin> set cs \<Longrightarrow> column_values (drop_columns cs df) c = column_values df c"
  by (simp add: column_values_def drop_columns_rows comp_def cellv_filter)

lemma drop_if_eq: "drop_if condition df = drop_columns (columns_to_drop condition df) df"
  by (simp add: drop_if_def)

text \<open>
  Claim C10. For a condition that gives one truth value per column, \<^verbatim>\<open>drop_if\<close> returns a
  frame with the same row keys in the same order and the same number of rows, its columns
  are columns of the input, every cell of a row is a cell of the same row of the input, and
  every retained column has the values it has in the input.
\<close>

theorem drop_if_frame:
  assumes "length (condition df) = length (columns df)"
  shows "map fst (rows (drop_if condition df)) = map fst (rows df) \<and>
     length (rows (drop_if condition df)) = length (rows df) \<and>
     set (columns (drop_if condition df)) \<subseteq> set (columns df) \<and>
     (\<forall>i<length (rows df). set (snd (rows (drop_if condition df) ! i)) \<subseteq> set (snd (rows df ! i))) \<and>
     (\<forall>c\<in>set (columns (drop_if condition df)).
        column_values (drop_if condition df) c = column_values df c)"
proof -
  let ?D = "columns_to_drop condition df"
  have a: "map fst (rows (drop_if condition df)) = map fst (rows df)"
    by (simp add: drop_if_eq drop_columns_rows comp_def)
  then have b: "length (rows (drop_if condition df)) = length (rows df)"
    by (metis length_map)
  have c: "set (columns (drop_if condition df)) \<subseteq> set (columns df)"
    by (auto simp: drop_if_eq drop_columns_columns)
  have d: "\<forall>i<length (rows df). set (snd (rows (drop_if condition df) ! i)) \<subseteq> set (snd (rows df ! i))"
    by (auto simp: drop_if_eq drop_columns_rows)
  have e: "\<forall>c\<in>set (columns (drop_if condition df)).
        column_values (drop_if condition df) c = column_values df c"
    by (auto simp: drop_if_eq drop_columns_columns drop_columns_values)
  show ?thesis using a b c d e by blast
qed

theorem drop_if_frame_witness:
  "length ((\<lambda>df. [True, False]) ex_two) = length (columns ex_two) \<and>
   map fst (rows (drop_if (\<lambda>df. [True, False]) ex_two)) = [(2020, winter), (2020, spring)] \<and>
   columns (drop_if (\<lambda>df. [True, False]) ex_two) = [''B''] \<and>
   column_values (drop_if (\<lambda>df. [True, False]) ex_two) ''B'' = column_values ex_two ''B'' \<and>
   column_values ex_two ''B'' = [Some (Fin 0), Some (Fin 1)]"
proof -
  have h: "length ((\<lambda>df. [True, False]) ex_two) = length (columns ex_two)"
    by (simp add: ex_two_def)
  have c: "columns (drop_if (\<lambda>df. [True, False]) ex_two) = [''B'']"
    by (simp add: ex_two_def drop_if_def drop_columns_def columns_to_drop_def)
  have r: "map fst (rows ex_two) = [(2020, winter), (2020, spring)]"
    "column_values ex_two ''B'' = [Some (Fin 0), Some (Fin 1)]"
    by (simp_all add: ex_two_def column_values_def cellv_def)
  show ?thesis using drop_if_frame[OF h] h c r by simp
qed

lemma recent_columns: "columns (recent df) = columns df"
  by (simp add: recent_def tail_def)

lemma recent_rows: "rows (recent df) = drop (length (rows df) - count_of df) (rows df)"
  by (simp add: recent_def tail_def)

lemma masked_labels: "map fst (filter snd (zip cs (map P cs))) = filter P cs"
  by (induction cs) simp_all

lemma map_positions: "map (\<lambda>j. f (cs ! j)) [0..<length cs] = map f cs"
  by (rule nth_equalityI) simp_all

lemma cell_at_label:
  assumes "map fst r = cs" "distinct cs" "j < length cs"
  shows "cell_at r j = cellv r (cs ! j)"
proof -
  have l: "j < length r" using assms(1,3) by (metis length_map)
  then have d: "drop j r = r ! j # drop (Suc j) r" by (simp add: Cons_nth_drop_Suc)
  have f: "fst (r ! j) = cs ! j" using assms(1) l by (metis nth_map)
  have "(fst (r ! j), snd (r ! j)) \<in> set r" using l by simp
  moreover have "distinct (map fst r)" using assms(1,2) by simp
  ultimately have "map_of r (fst (r ! j)) = Some (snd (r ! j))" by simp
  then show ?thesis unfolding f by (simp add: cell_at_def d cellv_def)
qed

lemma count_ge1_label:
  assumes "wf_frame df" "j < length (columns df)"
  shows "count_ge1 df j = appearances df (columns df ! j)"
proof -
  have d: "distinct (columns df)" using assms(1) by (simp add: wf_frame_def)
  have "cell_at (snd kr) j = cellv (snd kr) (columns df ! j)" if "kr \<in> set (rows df)" for kr
  proof -
    have "map fst (snd kr) = columns df" using assms(1) that by (simp add: wf_frame_def list_all_iff)
    then show ?thesis using d assms(2) by (rule cell_at_label)
  qed
  then have m: "map (\<lambda>kr. cell_at (snd kr) j) (rows df)
                = map (\<lambda>kr. cellv (snd kr) (columns df ! j)) (rows df)"
    by (intro map_cong refl)
  show ?thesis unfolding count_ge1_def appearances_def column_values_def m ..
qed

lemma mask_by_label:
  assumes "wf_frame df"
  shows "not_minimum_requirement n df
         = map (\<lambda>c. (of_nat (appearances df c) :: rat) < of_nat n * (4 / 10)) (columns df)"
proof -
  have "not_minimum_requirement n df
        = map (\<lambda>j. (of_nat (appearances df (columns df ! j)) :: rat) < of_nat n * (4 / 10))
            [0..<length (columns df)]"
    unfolding not_minimum_requirement_def using assms by (simp add: count_ge1_label)
  then show ?thesis
    using map_positions[of "\<lambda>c. (of_nat (appearances df c) :: rat) < of_nat n * (4 / 10)" "columns df"]
    by simp
qed

lemma wf_recent:
  assumes "wf_frame df"
  shows "wf_frame (recent df)"
proof -
  have "set (rows (recent df)) \<subseteq> set (rows df)"
    unfolding recent_rows by (rule set_drop_subset)
  then show ?thesis using assms unfolding wf_frame_def list_all_iff recent_columns by blast
qed

lemma to_drop_iff:
  "wf_frame df \<Longrightarrow>
   c \<in> set (columns_to_drop (not_minimum_requirement n) df)
   \<longleftrightarrow> c \<in> set (columns df) \<and> (of_nat (appearances df c) :: rat) < of_nat n * (4 / 10)"
  unfolding columns_to_drop_def by (simp add: mask_by_label masked_labels)

lemma filtered_eq:
  "filtered df = drop_columns (columns_to_drop (not_minimum_requirement (count_of df)) (recent df)) (recent df)"
  by (simp add: filtered_def drop_if_eq)

lemma filtered_columns_iff:
  "wf_frame df \<Longrightarrow>
   c \<in> set (columns (filtered df))
   \<longleftrightarrow> c \<in> set (columns df) \<and> (4 / 10) * of_nat (count_of df) \<le> (of_nat (appearances (recent df) c) :: rat)"
  by (auto simp: filtered_eq drop_columns_columns to_drop_iff wf_recent recent_columns mult.commute)

text \<open>
  Claim C2, as amended. \<^verbatim>\<open>plot_trend\<close> has no window and no fraction parameter: the window is
  the literal 20 and the fraction the literal 0.4. On a well-formed frame, with \<open>count\<close> the
  smaller of 20 and the number of partitions, and the frame restricted to its last \<open>count\<close>
  rows, a column is retained exactly when it is at least 1 in at least \<open>0.4 * count\<close> of
  these rows. A column that is not retained is absent from every row, and a retained one
  keeps its values. On a frame of exactly 10 partitions the count is 10: a column with 4
  appearances is retained, one with 3 is dropped.
\<close>

theorem consistency_threshold:
  assumes "wf_frame df"
  shows
  "count_of df = min 20 (length (rows df)) \<and>
   rows (recent df) = drop (length (rows df) - count_of df) (rows df) \<and>
   map fst (rows (filtered df)) = map fst (rows (recent df)) \<and>
   (c \<in> set (columns (filtered df))
      \<longleftrightarrow> c \<in> set (columns df) \<and>
          (4 / 10) * of_nat (count_of df) \<le> (of_nat (appearances (recent df) c) :: rat)) \<and>
   (c \<in> set (columns df) \<and> c \<notin> set (columns (filtered df))
      \<longrightarrow> (\<forall>kr\<in>set (rows (filtered df)). c \<notin> fst ` set (snd kr))) \<and>
   (c \<in> set (columns (filtered df))
      \<longrightarrow> column_values (filtered df) c = column_values (recent df) c) \<and>
   (length (rows df) = 10 \<and> c \<in> set (columns df) \<and> appearances (recent df) c = 4
      \<longrightarrow> c \<in> set (columns (filtered df))) \<and>
   (length (rows df) = 10 \<and> appearances (recent df) c = 3
      \<longrightarrow> c \<notin> set (columns (filtered df)))"
proof -
  let ?D = "columns_to_drop (not_minimum_requirement (count_of df)) (recent df)"
  have a: "count_of df = min 20 (length (rows df))" by (simp add: count_of_def)
  have b: "map fst (rows (filtered df)) = map fst (rows (recent df))"
    by (simp add: filtered_eq drop_columns_rows comp_def)
  have d: "c \<in> set (columns df) \<and> c \<notin> set (columns (filtered df))
      \<longrightarrow> (\<forall>kr\<in>set (rows (filtered df)). c \<notin> fst ` set (snd kr))"
  proof
    assume "c \<in> set (columns df) \<and> c \<notin> set (columns (filtered df))"
    then have "c \<in> set ?D"
      by (simp add: filtered_eq drop_columns_columns recent_columns)
    then show "\<forall>kr\<in>set (rows (filtered df)). c \<notin> fst ` set (snd kr)"
      by (auto simp: filtered_eq drop_columns_rows)
  qed
  have e: "c \<in> set (columns (filtered df))
      \<longrightarrow> column_values (filtered df) c = column_values (recent df) c"
    by (auto simp: filtered_eq drop_columns_columns drop_columns_values)
  have f: "length (rows df) = 10 \<and> c \<in> set (columns df) \<and> appearances (recent df) c = 4
      \<longrightarrow> c \<in> set (columns (filtered df))"
    using assms by (simp add: filtered_columns_iff count_of_def)
  have g: "length (rows df) = 10 \<and> appearances (recent df) c = 3
      \<longrightarrow> c \<notin> set (columns (filtered df))"
    using assms by (simp add: filtered_columns_iff count_of_def)
  show ?thesis using a b d e f g recent_rows[of df] filtered_columns_iff[OF assms, of c] by blast
qed

theorem consistency_threshold_witness:
  "wf_frame ex_ten \<and> length (rows ex_ten) = 10 \<and> ''A'' \<in> set (columns ex_ten) \<and>
   appearances (recent ex_ten) ''A'' = 4 \<and> ''A'' \<in> set (columns (filtered ex_ten)) \<and>
   appearances (recent ex_ten) ''B'' = 3 \<and> ''B'' \<in> set (columns ex_ten) \<and>
   ''B'' \<notin> set (columns (filtered ex_ten)) \<and>
   list_all (\<lambda>kr. ''B'' \<notin> fst ` set (snd kr)) (rows (filtered ex_ten)) \<and>
   column_values (filtered ex_ten) ''A'' = column_values (recent ex_ten) ''A''"
proof -
  have w: "wf_frame ex_ten" by (simp add: wf_frame_def ex_ten_def)
  have l: "length (rows ex_ten) = 10" by (simp add: ex_ten_def)
  have c: "''A'' \<in> set (columns ex_ten)" "''B'' \<in> set (columns ex_ten)"
    by (simp_all add: ex_ten_def)
  have r: "rows (recent ex_ten) = rows ex_ten"
    by (simp add: recent_rows count_of_def l)
  have a: "appearances (recent ex_ten) ''A'' = 4" "appearances (recent ex_ten) ''B'' = 3"
    unfolding appearances_def column_values_def r by (simp_all add: ex_ten_def cellv_def)
  have ra: "''A'' \<in> set (columns (filtered ex_ten))"
    using l c a consistency_threshold[OF w, of "''A''"] by blast
  then have va: "column_values (filtered ex_ten) ''A'' = column_values (recent ex_ten) ''A''"
    using consistency_threshold[OF w, of "''A''"] by blast
  have rb: "''B'' \<notin> set (columns (filtered ex_ten))"
    using l a consistency_threshold[OF w, of "''B''"] by blast
  then have "\<forall>kr\<in>set (rows (filtered ex_ten)). ''B'' \<notin> fst ` set (snd kr)"
    using c consistency_threshold[OF w, of "''B''"] by blast
  then have ab: "list_all (\<lambda>kr. ''B'' \<notin> fst ` set (snd kr)) (rows (filtered ex_ten))"
    by (simp only: list_all_iff)
  show ?thesis by (intro conjI w l c a ra rb ab va)
qed

text \<open>
  Claim C2, as stated, has a window parameter, and its example takes the window to be 10.
  On twelve partitions a column that appears in 4 of the 10 most recent ones meets the
  stated threshold of \<open>0.4 * 10\<close>, and is dropped: the count is 12.
\<close>

theorem consistency_window_counterexample:
  "wf_frame ex_twelve \<and> length (rows ex_twelve) = 12 \<and>
   min 10 (length (rows ex_twelve)) = 10 \<and>
   appearances (tail 10 ex_twelve) ''A'' = 4 \<and>
   (4 / 10) * of_nat 10 \<le> (of_nat 4 :: rat) \<and>
   count_of ex_twelve = 12 \<and>
   ''A'' \<in> set (columns ex_twelve) \<and>
   columns (filtered ex_twelve) = []"
proof -
  have t: "rows (tail 10 ex_twelve) = drop 2 (rows ex_twelve)"
    by (simp add: tail_def ex_twelve_def)
  have a: "appearances (tail 10 ex_twelve) ''A'' = 4"
    unfolding appearances_def column_values_def t by (simp add: ex_twelve_def cellv_def)
  have c: "count_of ex_twelve = 12" by (simp add: count_of_def ex_twelve_def)
  have r: "recent ex_twelve = ex_twelve"
    unfolding recent_def c tail_def by (simp add: ex_twelve_def)
  have m: "not_minimum_requirement 12 ex_twelve = [True]"
    by (simp add: not_minimum_requirement_def count_ge1_def cell_at_def ex_twelve_def)
  have f: "columns (filtered ex_twelve) = []"
    unfolding filtered_def c r drop_if_def columns_to_drop_def m
    by (simp add: drop_columns_def ex_twelve_def)
  show ?thesis
    using a c f by (simp add: wf_frame_def ex_twelve_def)
qed

section \<open>Groups and the selection\<close>

lemma set_map_filter_key: "set (List.map_filter key_of rs) = {k. \<exists>r\<in>set rs. key_of r = Some k}"
  by (auto simp: List.map_filter_def image_iff) force

lemma set_group_keys: "set (group_keys rs) = {k. \<exists>r\<in>set rs. key_of r = Some k}"
  by (simp add: group_keys_def set_map_filter_key)

lemma distinct_group_keys: "distinct (group_keys rs)"
  by (simp add: group_keys_def)

lemma season_code_inj: "season_code a = season_code b \<Longrightarrow> a = b"
  by (cases a; cases b) simp_all

lemma key_code_inj: "key_code a = key_code b \<Longrightarrow> a = b"
  by (cases a; cases b) (auto simp: key_code_def dest: season_code_inj)

lemma sorted_group_keys: "sorted (map key_code (group_keys rs))"
  by (simp add: group_keys_def)

lemma chrono_iff: "chrono k k' \<longleftrightarrow> key_code k < key_code k'"
  by (auto simp: chrono_def key_code_def)

lemma chrono_group_keys: "sorted_wrt chrono (group_keys rs)"
proof -
  have "sorted (map key_code (group_keys rs))" by (rule sorted_group_keys)
  moreover have "distinct (map key_code (group_keys rs))"
    by (simp add: distinct_map distinct_group_keys inj_on_def key_code_inj)
  ultimately have "sorted_wrt (<) (map key_code (group_keys rs))"
    by (simp add: strict_sorted_iff)
  then show ?thesis by (simp add: sorted_wrt_map chrono_iff[abs_def])
qed

lemma xord_desc_le: "xord_desc a \<le> xord_desc b \<longleftrightarrow> xord b \<le> xord a"
  by (cases a; cases b) auto

lemma xord_inj: "xord a = xord b \<Longrightarrow> a = b"
  by (cases a; cases b) auto

lemma set_sort_desc: "set (sort_desc rs) = set rs"
  by (simp add: sort_desc_def)

lemma length_sort_desc: "length (sort_desc rs) = length rs"
  by (simp add: sort_desc_def)

lemma set_nlargest_subset: "set (nlargest n rs) \<subseteq> set rs"
  by (auto simp: nlargest_def Let_def set_sort_desc)

lemma nlargest_nonpos: "n \<le> 0 \<Longrightarrow> nlargest n rs = []"
  by (simp add: nlargest_def)

lemma nlargest_small:
  assumes "0 < n" "length rs \<le> nat n"
  shows "set (nlargest n rs) = set rs" "length (nlargest n rs) = length rs"
proof -
  have e: "nlargest n rs = sort_desc (filter (\<lambda>r. Score r \<noteq> None) rs) @ filter (\<lambda>r. Score r = None) rs"
    using assms by (simp add: nlargest_def)
  show "set (nlargest n rs) = set rs" unfolding e by (auto simp: set_sort_desc)
  have "length (filter (\<lambda>r. Score r \<noteq> None) rs) + length (filter (\<lambda>r. Score r = None) rs) = length rs"
    using sum_length_filter_compl[of "\<lambda>r. Score r \<noteq> None" rs] by simp
  then show "length (nlargest n rs) = length rs" unfolding e by (simp add: length_sort_desc)
qed

lemma length_scores_desc: "length (scores_desc rs) = length (filter (\<lambda>r. Score r \<noteq> None) rs)"
  by (simp add: scores_desc_def length_sort_desc)

lemma scores_desc_sorted: "sorted_wrt (\<lambda>a b. xord b \<le> xord a) (scores_desc rs)"
proof -
  have "sorted (map (\<lambda>r. xord_desc (the (Score r))) (sort_desc (filter (\<lambda>r. Score r \<noteq> None) rs)))"
    by (simp add: sort_desc_def)
  then show ?thesis
    by (simp add: scores_desc_def sorted_wrt_map sorted_map xord_desc_le)
qed

lemma nlargest_large:
  assumes "0 < n" "\<not> length rs \<le> nat n" "filter (\<lambda>r. Score r \<noteq> None) rs \<noteq> []"
  shows "nlargest n rs =
    (if length (sort_desc (filter (\<lambda>r. xord (the (Score (sort_desc (filter (\<lambda>r. Score r \<noteq> None) rs)
                ! (min (nat n) (length (filter (\<lambda>r. Score r \<noteq> None) rs)) - 1))))
                  \<le> xord (the (Score r))) (filter (\<lambda>r. Score r \<noteq> None) rs))) < nat n
     then sort_desc (filter (\<lambda>r. xord (the (Score (sort_desc (filter (\<lambda>r. Score r \<noteq> None) rs)
                ! (min (nat n) (length (filter (\<lambda>r. Score r \<noteq> None) rs)) - 1))))
                  \<le> xord (the (Score r))) (filter (\<lambda>r. Score r \<noteq> None) rs))
          @ filter (\<lambda>r. Score r = None) rs
     else sort_desc (filter (\<lambda>r. xord (the (Score (sort_desc (filter (\<lambda>r. Score r \<noteq> None) rs)
                ! (min (nat n) (length (filter (\<lambda>r. Score r \<noteq> None) rs)) - 1))))
                  \<le> xord (the (Score r))) (filter (\<lambda>r. Score r \<noteq> None) rs)))"
proof -
  have a: "\<not> n \<le> 0" using assms(1) by simp
  show ?thesis
    unfolding nlargest_def Let_def if_not_P[OF a] if_not_P[OF assms(2)] if_not_P[OF assms(3)] ..
qed

lemma nlargest_reaching:
  assumes n: "0 < n" and enough: "nat n \<le> length (scores_desc rs)"
    and r: "r \<in> set rs" and s: "Score r = Some x"
    and x: "xord (scores_desc rs ! (nat n - 1)) \<le> xord x"
  shows "r \<in> set (nlargest n rs)"
proof (cases "length rs \<le> nat n")
  case True
  then show ?thesis using nlargest_small(1)[OF n, of rs] r by blast
next
  case False
  let ?d = "filter (\<lambda>r. Score r \<noteq> None) rs"
  have d: "?d \<noteq> []" using r s by (auto simp: filter_empty_conv)
  have k: "min (nat n) (length ?d) = nat n" using enough by (simp add: length_scores_desc)
  have nk: "nat n - 1 < length (sort_desc ?d)"
    using enough n by (simp add: length_scores_desc length_sort_desc)
  have kth: "the (Score (sort_desc ?d ! (nat n - 1))) = scores_desc rs ! (nat n - 1)"
    using nk by (simp add: scores_desc_def)
  let ?inds = "sort_desc (filter (\<lambda>r. xord (scores_desc rs ! (nat n - 1)) \<le> xord (the (Score r))) ?d)"
  have "r \<in> set ?inds" using r s x by (simp add: set_sort_desc)
  moreover have "nlargest n rs = (if length ?inds < nat n then ?inds @ filter (\<lambda>r. Score r = None) rs else ?inds)"
    using nlargest_large[OF n False d] unfolding k kth .
  ultimately show ?thesis by (simp split: if_splits)
qed

lemma nth_largest_mem:
  assumes "0 < n" "nat n \<le> length (scores_desc rs)"
  shows "\<exists>r\<in>set rs. Score r = Some (scores_desc rs ! (nat n - 1))"
proof -
  let ?d = "filter (\<lambda>r. Score r \<noteq> None) rs"
  have "nat n - 1 < length (sort_desc ?d)"
    using assms by (simp add: length_scores_desc length_sort_desc)
  then have "sort_desc ?d ! (nat n - 1) \<in> set (sort_desc ?d)" by (rule nth_mem)
  then have m: "sort_desc ?d ! (nat n - 1) \<in> set ?d" by (simp add: set_sort_desc)
  then have "Score (sort_desc ?d ! (nat n - 1)) \<noteq> None" by simp
  then have "Score (sort_desc ?d ! (nat n - 1)) = Some (scores_desc rs ! (nat n - 1))"
    using \<open>nat n - 1 < length (sort_desc ?d)\<close> by (auto simp: scores_desc_def)
  then show ?thesis using m by auto
qed

lemma nlargest_Nil: "nlargest n [] = []"
  by (simp add: nlargest_def sort_desc_def)

lemma group_rows_Nil: "group_rows k [] = []"
  by (simp add: group_rows_def)

lemma group_rows_append: "group_rows k (xs @ ys) = group_rows k xs @ group_rows k ys"
  by (simp add: group_rows_def)

lemma group_rows_key: "r \<in> set (group_rows k rs) \<Longrightarrow> key_of r = Some k"
  by (simp add: group_rows_def)

lemma group_rows_nlargest:
  "group_rows k (nlargest n (group_rows k' rs)) = (if k = k' then nlargest n (group_rows k rs) else [])"
proof -
  have a: "\<forall>r\<in>set (nlargest n (group_rows k' rs)). key_of r = Some k'"
    using set_nlargest_subset[of n "group_rows k' rs"] group_rows_key by blast
  show ?thesis
  proof (cases "k = k'")
    case True
    then have "filter (\<lambda>r. key_of r = Some k) (nlargest n (group_rows k rs)) = nlargest n (group_rows k rs)"
      using a by (simp add: filter_id_conv)
    then show ?thesis using True by (simp add: group_rows_def)
  next
    case False
    then have "filter (\<lambda>r. key_of r = Some k) (nlargest n (group_rows k' rs)) = []"
      using a by (simp add: filter_empty_conv)
    then show ?thesis using False by (simp add: group_rows_def)
  qed
qed

lemma group_rows_concat:
  "distinct ks \<Longrightarrow>
   group_rows k (concat (map (\<lambda>k'. nlargest n (group_rows k' rs)) ks))
   = (if k \<in> set ks then nlargest n (group_rows k rs) else [])"
  by (induction ks) (simp_all add: group_rows_append group_rows_nlargest group_rows_Nil)

lemma group_rows_empty: "k \<notin> set (group_keys rs) \<Longrightarrow> group_rows k rs = []"
  by (auto simp: set_group_keys group_rows_def filter_empty_conv)

lemma items_select: "items (select_top_n n df) = concat (map (\<lambda>k. nlargest n (group_rows k (items df))) (group_keys (items df)))"
  by (simp add: select_top_n_def)

lemma select_group: "group_rows k (items (select_top_n n df)) = nlargest n (group_rows k (items df))"
  unfolding items_select
  by (simp add: group_rows_concat distinct_group_keys group_rows_empty nlargest_Nil)

lemma select_subset: "set (items (select_top_n n df)) \<subseteq> set (items df)"
proof
  fix r assume "r \<in> set (items (select_top_n n df))"
  then obtain k where "r \<in> set (nlargest n (group_rows k (items df)))"
    unfolding items_select by auto
  then have "r \<in> set (group_rows k (items df))" using set_nlargest_subset by blast
  then show "r \<in> set (items df)" by (simp add: group_rows_def)
qed

lemma select_nonpos: "n \<le> 0 \<Longrightarrow> items (select_top_n n df) = []"
  unfolding items_select by (simp add: nlargest_nonpos)

lemma headers_select: "headers (select_top_n n df) = headers df"
  by (simp add: select_top_n_def)

lemma filter_take_length: "length (filter P (take n xs)) \<le> length (filter P xs)"
proof -
  have "filter P (take n xs @ drop n xs) = filter P (take n xs) @ filter P (drop n xs)"
    by (rule filter_append)
  then have "length (filter P xs) = length (filter P (take n xs)) + length (filter P (drop n xs))"
    by simp
  then show ?thesis by simp
qed

lemma nlargest_length:
  assumes n: "0 < n"
  shows "min (nat n) (length rs) \<le> length (nlargest n rs)"
proof (cases "length rs \<le> nat n")
  case True
  then show ?thesis using nlargest_small(2)[OF n, of rs] by simp
next
  case False
  let ?d = "filter (\<lambda>r. Score r \<noteq> None) rs"
  let ?nan = "filter (\<lambda>r. Score r = None) rs"
  have tot: "length ?d + length ?nan = length rs"
    using sum_length_filter_compl[of "\<lambda>r. Score r \<noteq> None" rs] by simp
  show ?thesis
  proof (cases "?d = []")
    case True
    then have "nlargest n rs = ?nan" using n False by (simp add: nlargest_def)
    moreover have "length ?nan = length rs" using tot True by simp
    ultimately show ?thesis by simp
  next
    case d: False
    define k where "k = min (nat n) (length ?d)"
    define srt where "srt = sort_desc ?d"
    define kth where "kth = the (Score (srt ! (k - 1)))"
    define P where "P = (\<lambda>r::'a item. xord kth \<le> xord (the (Score r)))"
    define inds where "inds = sort_desc (filter P ?d)"
    have e: "nlargest n rs = (if length inds < nat n then inds @ ?nan else inds)"
      unfolding inds_def P_def kth_def srt_def k_def by (rule nlargest_large[OF n False d])
    have dpos: "0 < length ?d" using d by simp
    have kpos: "0 < k" unfolding k_def using n dpos by simp
    have lsrt: "length srt = length ?d" by (simp add: srt_def length_sort_desc)
    have klen: "k \<le> length srt" unfolding k_def lsrt by simp
    have sorted: "sorted (map (\<lambda>r. xord_desc (the (Score r))) srt)"
      by (simp add: srt_def sort_desc_def)
    have "\<forall>r\<in>set (take k srt). P r"
    proof
      fix r assume "r \<in> set (take k srt)"
      then obtain i where i: "i < k" "r = srt ! i"
        using klen by (auto simp: in_set_conv_nth)
      have a: "i \<le> k - 1" using i(1) by linarith
      have b: "k - 1 < length (map (\<lambda>r. xord_desc (the (Score r))) srt)"
        using klen kpos by simp
      have "map (\<lambda>r. xord_desc (the (Score r))) srt ! i
                 \<le> map (\<lambda>r. xord_desc (the (Score r))) srt ! (k - 1)"
        using sorted a b by (rule sorted_nth_mono)
      moreover have "i < length srt" "k - 1 < length srt" using i(1) klen kpos by linarith+
      ultimately have "xord_desc (the (Score (srt ! i))) \<le> xord_desc kth"
        by (simp add: kth_def)
      then show "P r" using i(2) by (simp add: xord_desc_le P_def)
    qed
    then have "filter P (take k srt) = take k srt"
      by (simp add: filter_id_conv)
    then have "length (filter P (take k srt)) = k" using klen by simp
    then have "k \<le> length (filter P srt)"
      using filter_take_length[of P k srt] by simp
    moreover have "length (filter P srt) = length inds"
      by (simp add: inds_def srt_def sort_desc_def filter_sort)
    ultimately have ki: "k \<le> length inds" by simp
    have il: "length inds \<le> length ?d"
      unfolding inds_def length_sort_desc by (rule length_filter_le)
    show ?thesis
    proof (cases "length inds < nat n")
      case True
      then have "k < nat n" using ki by linarith
      then have "k = length ?d" unfolding k_def by linarith
      then have "length inds = length ?d" using ki il by linarith
      then have "length (nlargest n rs) = length rs" using e True tot by simp
      then show ?thesis by simp
    next
      case False
      then show ?thesis using e by simp
    qed
  qed
qed

section \<open>The aggregated frame\<close>




lemma distinct_difference: "distinct (difference cs bh)"
  by (simp add: difference_def)

lemma columns_aggregate: "columns (aggregate bh df) = difference (''Score'' # headers df) bh"
  by (simp add: aggregate_def Let_def select_columns_def dropna_def groupby_sum_def)

lemma rows_dropna_groupby:
  "rows (dropna (groupby_sum df))
   = map (\<lambda>k. (k, partition_sums df k)) (filter (complete_sums df) (result_keys (items df)))"
proof -
  have "(\<lambda>k. list_all (\<lambda>cv. snd cv \<noteq> None) (partition_sums df k)) = complete_sums df"
    by (simp add: complete_sums_def fun_eq_iff)
  then show ?thesis
    by (simp add: dropna_def groupby_sum_def filter_map comp_def)
qed

lemma rows_aggregate:
  "rows (aggregate bh df)
   = map (\<lambda>k. (k, map (\<lambda>c. (c, cellv (partition_sums df k) c)) (difference (''Score'' # headers df) bh)))
       (filter (complete_sums df) (result_keys (items df)))"
proof -
  have c: "columns (dropna (groupby_sum df)) = ''Score'' # headers df"
    by (simp add: dropna_def groupby_sum_def)
  show ?thesis
    unfolding aggregate_def Let_def select_columns_def c
    by (simp add: rows_dropna_groupby comp_def)
qed

lemma index_aggregate:
  "map fst (rows (aggregate bh df)) = filter (complete_sums df) (result_keys (items df))"
  by (simp add: rows_aggregate comp_def)





lemma season_UNIV: "set [winter, spring, summer, fall] = UNIV"
  by (auto intro: season.exhaust)

lemma set_result_keys: "set (result_keys rs) = (Year ` set rs) \<times> UNIV"
  by (simp only: result_keys_def set_product set_sort set_remdups set_map season_UNIV)


lemma chrono_product:
  "sorted_wrt (<) ys \<Longrightarrow> sorted_wrt chrono (List.product ys [winter, spring, summer, fall])"
  by (induction ys) (auto simp: sorted_wrt_append chrono_def)

lemma chrono_result_keys: "sorted_wrt chrono (result_keys rs)"
proof -
  have "sorted_wrt (<) (sort (remdups (map Year rs)))"
    by (simp add: strict_sorted_iff)
  then show ?thesis unfolding result_keys_def by (rule chrono_product)
qed

lemma group_keys_result: "set (group_keys rs) \<subseteq> set (result_keys rs)"
  unfolding set_group_keys set_result_keys by (auto simp: key_of_def split: option.splits)



lemma index_chrono: "sorted_wrt chrono (map fst (rows (aggregate bh df)))"
  unfolding index_aggregate by (rule sorted_wrt_filter) (rule chrono_result_keys)

lemma index_normalize: "map fst (rows (normalize df)) = map fst (rows df)"
  by (simp add: normalize_def comp_def)

lemma index_filtered: "map fst (rows (filtered df)) = map fst (rows (recent df))"
  by (simp add: filtered_eq drop_columns_rows comp_def)

lemma index_recent:
  "map fst (rows (recent df)) = drop (length (rows df) - count_of df) (map fst (rows df))"
  by (simp add: recent_rows drop_map)

section \<open>The claims on the selection\<close>

text \<open>
  Claim C1. For \<open>n \<ge> 1\<close> and every partition key \<open>k\<close>, the rows selected from the partition
  are rows of the partition, at least \<open>n\<close> of them or all; when the partition has at least
  \<open>n\<close> scored rows, every row whose score equals the \<open>n\<close>-th largest score of the partition,
  and every row whose score reaches it, is selected; when the partition has at most \<open>n\<close>
  rows, all of them are selected.
\<close>

theorem tie_inclusion:
  assumes "1 \<le> n"
  shows
   "set (group_rows k (items (select_top_n n df))) \<subseteq> set (group_rows k (items df)) \<and>
    min (nat n) (length (group_rows k (items df)))
      \<le> length (group_rows k (items (select_top_n n df))) \<and>
    (nat n \<le> length (scores_desc (group_rows k (items df))) \<longrightarrow>
       (\<forall>r\<in>set (group_rows k (items df)).
          Score r = Some (scores_desc (group_rows k (items df)) ! (nat n - 1))
          \<longrightarrow> r \<in> set (group_rows k (items (select_top_n n df)))) \<and>
       (\<forall>r\<in>set (group_rows k (items df)). \<forall>x.
          Score r = Some x \<and> xord (scores_desc (group_rows k (items df)) ! (nat n - 1)) \<le> xord x
          \<longrightarrow> r \<in> set (group_rows k (items (select_top_n n df))))) \<and>
    (length (group_rows k (items df)) \<le> nat n \<longrightarrow>
       set (group_rows k (items (select_top_n n df))) = set (group_rows k (items df)) \<and>
       length (group_rows k (items (select_top_n n df))) = length (group_rows k (items df)))"
proof -
  have n: "0 < n" using assms by simp
  let ?part = "group_rows k (items df)"
  have a: "set (nlargest n ?part) \<subseteq> set ?part" by (rule set_nlargest_subset)
  have b: "min (nat n) (length ?part) \<le> length (nlargest n ?part)"
    using n by (rule nlargest_length)
  have c: "r \<in> set (nlargest n ?part)"
    if "nat n \<le> length (scores_desc ?part)" "r \<in> set ?part" "Score r = Some x"
      "xord (scores_desc ?part ! (nat n - 1)) \<le> xord x" for r x
    using n that by (rule nlargest_reaching)
  have c': "r \<in> set (nlargest n ?part)"
    if "nat n \<le> length (scores_desc ?part)" "r \<in> set ?part"
      "Score r = Some (scores_desc ?part ! (nat n - 1))" for r
    using c[OF that] by simp
  have d: "set (nlargest n ?part) = set ?part \<and> length (nlargest n ?part) = length ?part"
    if "length ?part \<le> nat n"
    using nlargest_small[OF n that] by simp
  show ?thesis unfolding select_group using a b c c' d by blast
qed

lemma ex_ties_winter_scores:
  "scores_desc (group_rows (2020, winter) (items ex_ties))
   = [Fin 9, Fin 8, Fin 7, Fin 6, Fin 5, Fin 5, Fin 4]"
  by (simp add: ex_ties_def ex_item_def group_rows_def key_of_def scores_desc_def sort_desc_def)

lemma ex_ties_winter_selected:
  "map Score (group_rows (2020, winter) (items (select_top_n 5 ex_ties)))
   = [Some (Fin 9), Some (Fin 8), Some (Fin 7), Some (Fin 6), Some (Fin 5), Some (Fin 5)]"
  unfolding select_group
  by (simp add: ex_ties_def ex_item_def group_rows_def key_of_def nlargest_def sort_desc_def Let_def)

theorem tie_inclusion_witness:
  "(1::int) \<le> 5 \<and>
   nat 5 \<le> length (scores_desc (group_rows (2020, winter) (items ex_ties))) \<and>
   scores_desc (group_rows (2020, winter) (items ex_ties)) ! (nat 5 - 1) = Fin 5 \<and>
   ex_item 2020 (Some winter) (Some (Fin 5)) (Some (Fin 1)) (Some (Fin 0))
     \<in> set (group_rows (2020, winter) (items (select_top_n 5 ex_ties))) \<and>
   ex_item 2020 (Some winter) (Some (Fin 5)) (Some (Fin 0)) (Some (Fin 1))
     \<in> set (group_rows (2020, winter) (items (select_top_n 5 ex_ties))) \<and>
   length (group_rows (2020, winter) (items (select_top_n 5 ex_ties))) = 6 \<and>
   length (group_rows (2020, spring) (items ex_ties)) \<le> nat 5 \<and>
   length (group_rows (2020, spring) (items (select_top_n 5 ex_ties))) = 2"
proof -
  have h: "(1::int) \<le> 5" by simp
  have e: "nat 5 \<le> length (scores_desc (group_rows (2020, winter) (items ex_ties)))"
    by (simp add: ex_ties_winter_scores)
  have v: "scores_desc (group_rows (2020, winter) (items ex_ties)) ! (nat 5 - 1) = Fin 5"
    by (simp add: ex_ties_winter_scores)
  have m1: "ex_item 2020 (Some winter) (Some (Fin 5)) (Some (Fin 1)) (Some (Fin 0))
              \<in> set (group_rows (2020, winter) (items ex_ties))"
    and m2: "ex_item 2020 (Some winter) (Some (Fin 5)) (Some (Fin 0)) (Some (Fin 1))
              \<in> set (group_rows (2020, winter) (items ex_ties))"
    by (simp_all add: ex_ties_def ex_item_def group_rows_def key_of_def)
  have s1: "Score (ex_item 2020 (Some winter) (Some (Fin 5)) (Some (Fin 1)) (Some (Fin 0)))
            = Some (scores_desc (group_rows (2020, winter) (items ex_ties)) ! (nat 5 - 1))"
    and s2: "Score (ex_item 2020 (Some winter) (Some (Fin 5)) (Some (Fin 0)) (Some (Fin 1)))
            = Some (scores_desc (group_rows (2020, winter) (items ex_ties)) ! (nat 5 - 1))"
    unfolding v by (simp_all add: ex_item_def)
  have t1: "ex_item 2020 (Some winter) (Some (Fin 5)) (Some (Fin 1)) (Some (Fin 0))
     \<in> set (group_rows (2020, winter) (items (select_top_n 5 ex_ties)))"
    using tie_inclusion[OF h, of "(2020, winter)" ex_ties] e m1 s1 by blast
  have t2: "ex_item 2020 (Some winter) (Some (Fin 5)) (Some (Fin 0)) (Some (Fin 1))
     \<in> set (group_rows (2020, winter) (items (select_top_n 5 ex_ties)))"
    using tie_inclusion[OF h, of "(2020, winter)" ex_ties] e m2 s2 by blast
  have l: "length (group_rows (2020, winter) (items (select_top_n 5 ex_ties))) = 6"
    using arg_cong[OF ex_ties_winter_selected, of length] by simp
  have p: "length (group_rows (2020, spring) (items ex_ties)) = 2"
    by (simp add: ex_ties_def ex_item_def group_rows_def key_of_def)
  then have p': "length (group_rows (2020, spring) (items ex_ties)) \<le> nat 5" by simp
  have q: "length (group_rows (2020, spring) (items (select_top_n 5 ex_ties))) = 2"
    using tie_inclusion[OF h, of "(2020, spring)" ex_ties] p p' by simp
  show ?thesis by (intro conjI h e v t1 t2 l p' q)
qed

lemma items_prepare:
  "items (prepare df)
   = map (\<lambda>r. \<lparr>Year = Year r, Season = categorical (Season r), Score = Score r, vals = vals r\<rparr>)
       (filter (\<lambda>r. Score r \<noteq> None) (items df))"
  by (simp add: prepare_def set_categorical_def dropna_score_def)

text \<open>
  Claim C8. \<^verbatim>\<open>analyze_trend\<close> drops the rows without a score before it selects, so for every
  data set and every \<open>n\<close> no selected row has a null score.
\<close>

theorem null_score_excluded:
  "\<forall>r\<in>set (items (select_top_n n (prepare df))). Score r \<noteq> None"
proof
  fix r assume "r \<in> set (items (select_top_n n (prepare df)))"
  then have "r \<in> set (items (prepare df))" using select_subset by blast
  then show "Score r \<noteq> None" unfolding items_prepare by auto
qed

lemma ex_raw_selected:
  "map Score (items (select_top_n 5 (prepare ex_raw))) = [Some (Fin 7), Some (Fin 8)]"
  by code_simp

theorem null_score_excluded_witness:
  "\<not> list_all (\<lambda>r. Score r \<noteq> None) (items ex_raw) \<and>
   list_all (\<lambda>r. Score r \<noteq> None) (items (select_top_n 5 (prepare ex_raw))) \<and>
   length (items (select_top_n 5 (prepare ex_raw))) = 2"
proof -
  have a: "\<not> list_all (\<lambda>r. Score r \<noteq> None) (items ex_raw)"
    by (simp add: ex_raw_def ex_item_def)
  have b: "list_all (\<lambda>r. Score r \<noteq> None) (items (select_top_n 5 (prepare ex_raw)))"
    using null_score_excluded[of 5 ex_raw] by (simp only: list_all_iff)
  have c: "length (items (select_top_n 5 (prepare ex_raw))) = 2"
    using arg_cong[OF ex_raw_selected, of length] by simp
  show ?thesis by (intro conjI a b c)
qed

section \<open>The claims on the aggregated frame\<close>

text \<open>
  \<^verbatim>\<open>only_genres_for_top_n\<close> applies \<open>aggregate\<close> to the selected rows; the statements below
  are about \<open>aggregate\<close> on any data set of selected rows.
\<close>












text \<open>
  Claim C5. For every data set and every \<open>n\<close>, the frame that \<^verbatim>\<open>analyze_trend\<close> aggregates is
  indexed in chronological order: by year, and by season code within a year. The recent
  frame of \<^verbatim>\<open>plot_trend\<close> keeps the last \<open>count\<close> keys of this order, and the table handed to
  the plot has them in the same order.
\<close>

theorem chronological_order:
  "sorted_wrt chrono (map fst (rows (only_genres_for_top_n bh (prepare df) n))) \<and>
   map fst (rows (recent (only_genres_for_top_n bh (prepare df) n)))
     = drop (length (rows (only_genres_for_top_n bh (prepare df) n))
               - count_of (only_genres_for_top_n bh (prepare df) n))
         (map fst (rows (only_genres_for_top_n bh (prepare df) n))) \<and>
   sorted_wrt chrono (map fst (rows (plot_trend (only_genres_for_top_n bh (prepare df) n))))"
proof -
  let ?g = "only_genres_for_top_n bh (prepare df) n"
  have a: "sorted_wrt chrono (map fst (rows ?g))"
    unfolding only_genres_for_top_n_def by (rule index_chrono)
  have b: "map fst (rows (recent ?g)) = drop (length (rows ?g) - count_of ?g) (map fst (rows ?g))"
    by (rule index_recent)
  have "map fst (rows (plot_trend ?g)) = map fst (rows (recent ?g))"
    by (simp add: plot_trend_def index_normalize index_filtered)
  then have c: "sorted_wrt chrono (map fst (rows (plot_trend ?g)))"
    unfolding b using a by (simp add: sorted_wrt_drop)
  show ?thesis using a b c by blast
qed

lemma ex_order_index:
  "map fst (rows (only_genres_for_top_n [''Score''] (prepare ex_order) 5))
   = [(2020, winter), (2020, spring), (2020, summer), (2020, fall),
      (2021, winter), (2021, spring), (2021, summer), (2021, fall)]"
  by code_simp

lemma ex_order_keys:
  "map key_of (items (prepare ex_order))
   = [Some (2020, fall), Some (2021, winter), Some (2020, winter)]"
  by code_simp

theorem chronological_order_witness:
  "map key_of (items (prepare ex_order))
     = [Some (2020, fall), Some (2021, winter), Some (2020, winter)] \<and>
   filter (\<lambda>k. Some k \<in> set (map key_of (items (prepare ex_order))))
     (map fst (rows (only_genres_for_top_n [''Score''] (prepare ex_order) 5)))
     = [(2020, winter), (2020, fall), (2021, winter)] \<and>
   sorted_wrt chrono (map fst (rows (only_genres_for_top_n [''Score''] (prepare ex_order) 5))) \<and>
   sorted_wrt chrono [(2020, winter), (2020, fall), (2021, winter)]"
proof -
  have f: "filter (\<lambda>k. Some k \<in> set (map key_of (items (prepare ex_order))))
     (map fst (rows (only_genres_for_top_n [''Score''] (prepare ex_order) 5)))
     = [(2020, winter), (2020, fall), (2021, winter)]"
    unfolding ex_order_index ex_order_keys by simp
  have s: "sorted_wrt chrono (map fst (rows (only_genres_for_top_n [''Score''] (prepare ex_order) 5)))"
    using chronological_order[of "[''Score'']" ex_order 5] by blast
  then have "sorted_wrt chrono (filter (\<lambda>k. Some k \<in> set (map key_of (items (prepare ex_order))))
     (map fst (rows (only_genres_for_top_n [''Score''] (prepare ex_order) 5))))"
    by (rule sorted_wrt_filter)
  then have t: "sorted_wrt chrono [(2020, winter), (2020, fall), (2021, winter)]"
    unfolding f .
  show ?thesis by (intro conjI ex_order_keys f s t)
qed

text \<open>
  Claim C7, as amended. The code has no check of \<open>n\<close>. For \<open>n \<le> 0\<close> the selection does not
  fail: no row is selected from any partition, and the result of \<^verbatim>\<open>only_genres_for_top_n\<close>
  is the frame of the genre columns with no rows.
\<close>

theorem nonpositive_n_selects_nothing:
  assumes "n \<le> 0"
  shows "items (select_top_n n df) = [] \<and>
         rows (only_genres_for_top_n bh df n) = [] \<and>
         columns (only_genres_for_top_n bh df n) = difference (''Score'' # headers df) bh"
proof -
  have a: "items (select_top_n n df) = []" using assms by (rule select_nonpos)
  have "map fst (rows (only_genres_for_top_n bh df n)) = []"
    unfolding only_genres_for_top_n_def index_aggregate a by (simp add: result_keys_def)
  then have b: "rows (only_genres_for_top_n bh df n) = []" by simp
  have c: "columns (only_genres_for_top_n bh df n) = difference (''Score'' # headers df) bh"
    by (simp add: only_genres_for_top_n_def columns_aggregate headers_select)
  show ?thesis using a b c by blast
qed

theorem nonpositive_n_selects_nothing_witness:
  "(0::int) \<le> 0 \<and> items ex_ties \<noteq> [] \<and> items (select_top_n 0 ex_ties) = [] \<and>
   rows (only_genres_for_top_n [''Score''] ex_ties 0) = []"
proof -
  have h: "(0::int) \<le> 0" by simp
  have e: "items ex_ties \<noteq> []" by (simp add: ex_ties_def)
  show ?thesis using nonpositive_n_selects_nothing[OF h, of ex_ties "[''Score'']"] h e by blast
qed

text \<open>
  Claim C7, as stated, fails at \<open>n = 0\<close>: on a data set of nine rows the function returns a
  frame, the one with the two genre columns and no rows.
\<close>

theorem nonpositive_n_counterexample:
  "only_genres_for_top_n [''Score''] ex_ties 0 = \<lparr>columns = [''A'', ''B''], rows = []\<rparr>"
  by code_simp

end
